theory Spec2Isabelle
  imports Complex_Main
begin

section \<open>The Service_UI plugin of Pupil Service (shared_modules/service_ui.py)\<close>

text \<open>
  The plugin owns the control window of the eye-tracking service. Everything it does is
  a call into the window system (glfw), the widget system (pyglui), the logger or the
  notification bus. The embedding keeps the values these collaborators hold in one
  state record and writes every call the plugin makes into a trace, in call order, so
  that claims about what is emitted, in which order and how often, become claims about
  the trace.

  A finite Python float is the rational number it denotes; the floats that glfw and the
  stored settings supply are taken to be finite. Where an integer is computed
  from floats (\<open>set_window_size\<close>, \<open>get_init_dict\<close>), every operation rounds as an
  IEEE double operation does and can overflow, and \<open>int()\<close> raises on what has no
  integer. A float that is only stored or handed on (the widget system's scale, a scroll
  offset, a delay) is kept as the decimal literal or the exact product it is computed
  from, which the double in the program approximates to half a unit in its last place.
\<close>

subsection \<open>Python values, exceptions, dictionaries\<close>

datatype py_error =
    KeyError string
  | ZeroDivisionError
  | AttributeError
  | OverflowError
  | ValueError

text \<open>
  The values that occur in the dictionaries of this file. \<open>'c\<close> is the type of the
  widget system's configuration, which the plugin stores and returns and never looks into.
\<close>

datatype 'c pyval =
    PStr string
  | PInt int
  | PFloat rat
  | PPair int int
  | POpaque 'c

type_synonym 'c pydict = "string \<rightharpoonup> 'c pyval"

subsection \<open>Python floats\<close>

text \<open>
  A Python float is an IEEE double. A finite double is a rational number, and the float
  attributes of the state hold such numbers. The result of an arithmetic operation is
  the exact result rounded to the nearest double, ties to the even significand, with 53
  bits of significand and exponents down to \<open>-1074\<close> (subnormal numbers included); an
  exact result of magnitude \<open>2^1024 - 2^970\<close> or more, half an ulp above the largest
  double, rounds to an infinity. The sign of a zero and of an infinity is not kept:
  nothing in this file depends on it.
\<close>

datatype py_float = Finite rat | Infinite | NaN

text \<open>\<open>int.bit_length\<close>: the number of binary digits of a natural number.\<close>

fun bit_length :: "nat \<Rightarrow> nat" where
  "bit_length n = (if n = 0 then 0 else Suc (bit_length (n div 2)))"

declare bit_length.simps [simp del]

text \<open>
  The binary exponent of a positive rational \<open>a\<close>, the integer \<open>e\<close> with
  \<open>2^e \<le> a < 2^(e+1)\<close>: the difference of the bit lengths of numerator and denominator,
  or one less.
\<close>

definition floor_log2 :: "rat \<Rightarrow> int" where
  "floor_log2 a =
     (let (n, d) = quotient_of a;
          k = int (bit_length (nat n)) - int (bit_length (nat d))
      in if 2 powi k \<le> a then k else k - 1)"

definition round_half_even :: "rat \<Rightarrow> int" where
  "round_half_even r =
     (let f = \<lfloor>r\<rfloor>; d = r - of_int f
      in if d < 1 / 2 then f else if 1 / 2 < d then f + 1 else if even f then f else f + 1)"

text \<open>Rounding to the grid of doubles around \<open>x\<close>, the exponent range unbounded above.\<close>

definition round_to_double :: "rat \<Rightarrow> rat" where
  "round_to_double x =
     (if x = 0 then 0
      else (let a = \<bar>x\<bar>;
                q = max (floor_log2 a - 52) (- 1074);
                m = round_half_even (a / 2 powi q)
            in sgn x * of_int m * 2 powi q))"

definition double_overflow :: rat where
  "double_overflow = 2 ^ 1024 - 2 ^ 970"

definition to_double :: "rat \<Rightarrow> py_float" where
  "to_double x = (if double_overflow \<le> \<bar>x\<bar> then Infinite else Finite (round_to_double x))"

text \<open>\<open>int(x)\<close> of a finite Python float: truncation toward zero.\<close>

definition py_int :: "rat \<Rightarrow> int" where
  "py_int x = (if x < 0 then \<lceil>x\<rceil> else \<lfloor>x\<rfloor>)"

text \<open>\<open>int(x)\<close> of any float: an infinity and a NaN have no integer.\<close>

definition py_int_of_float :: "py_float \<Rightarrow> py_error + int" where
  "py_int_of_float x =
     (case x of
        Finite r \<Rightarrow> Inr (py_int r)
      | Infinite \<Rightarrow> Inl OverflowError
      | NaN \<Rightarrow> Inl ValueError)"

text \<open>\<open>float(i)\<close> of a Python int, as the arithmetic operators convert an int operand.\<close>

definition py_float_of_int :: "int \<Rightarrow> py_error + rat" where
  "py_float_of_int i =
     (case to_double (of_int i) of
        Finite r \<Rightarrow> Inr r
      | _ \<Rightarrow> Inl OverflowError)"

text \<open>\<open>a / b\<close> on finite floats: a zero divisor raises, whatever the dividend.\<close>

definition py_truediv :: "rat \<Rightarrow> rat \<Rightarrow> py_error + py_float" where
  "py_truediv a b = (if b = 0 then Inl ZeroDivisionError else Inr (to_double (a / b)))"

text \<open>\<open>i / b\<close> with an int \<open>i\<close> and a float \<open>b\<close>: the int is converted first.\<close>

definition py_int_truediv :: "int \<Rightarrow> rat \<Rightarrow> py_error + py_float" where
  "py_int_truediv i b =
     (case py_float_of_int i of
        Inl e \<Rightarrow> Inl e
      | Inr a \<Rightarrow> py_truediv a b)"

text \<open>\<open>a * x\<close> with a finite float \<open>a\<close>: zero times an infinity is a NaN.\<close>

definition py_mul :: "rat \<Rightarrow> py_float \<Rightarrow> py_float" where
  "py_mul a x =
     (case x of
        Finite b \<Rightarrow> to_double (a * b)
      | Infinite \<Rightarrow> (if a = 0 then NaN else Infinite)
      | NaN \<Rightarrow> NaN)"

text \<open>\<open>"{}".format(n)\<close> of a Python int: its decimal digits, with a sign when negative.\<close>

definition digit_char :: "nat \<Rightarrow> char" where
  "digit_char d = ''0123456789'' ! (d mod 10)"

fun str_nat :: "nat \<Rightarrow> string" where
  "str_nat n = (if n < 10 then [digit_char n] else str_nat (n div 10) @ [digit_char n])"

declare str_nat.simps [simp del]

definition py_format_int :: "int \<Rightarrow> string" where
  "py_format_int i = (if i < 0 then CHR ''-'' # str_nat (nat (- i)) else str_nat (nat i))"

text \<open>
  The reading of a decimal numeral, against which the formatting is checked: the value
  of a digit, of a string of digits, and of a string of digits with an optional sign.
\<close>

definition digit_value :: "char \<Rightarrow> nat" where
  "digit_value c = of_char c - 48"

definition is_digit :: "char \<Rightarrow> bool" where
  "is_digit c = (48 \<le> (of_char c :: nat) \<and> (of_char c :: nat) \<le> 57)"

definition nat_of_decimal :: "string \<Rightarrow> nat" where
  "nat_of_decimal s = foldl (\<lambda>a c. 10 * a + digit_value c) 0 s"

definition int_of_decimal :: "string \<Rightarrow> int" where
  "int_of_decimal s =
     (case s of
        [] \<Rightarrow> 0
      | c # t \<Rightarrow> if c = CHR ''-'' then - int (nat_of_decimal t) else int (nat_of_decimal s))"

subsection \<open>Calls into the collaborators, as trace events\<close>

datatype 'c event =
    LoggerWarning string
  | NotifyAll "'c pydict"
  | GlfwSetWindowShouldClose bool
  | GlfwSetWindowSize int int
  | GlfwPollEvents
  | GlfwSetClipboardString string
  | GlfwSwapBuffers
  | GlViewport int int int int
  | MakeCoordSystemNormBased
  | DrawGlTexture
  | MakeCoordSystemPixelBased int int int
  | GuiUpdateWindow int int
  | GuiCollectMenus
  | GuiUpdateClipboard string
  | GuiUpdate
  | GuiUpdateKey int int int int
  | GuiUpdateChar int
  | GuiUpdateButton int int int
  | GuiUpdateMouse rat rat
  | GuiUpdateScroll rat rat

subsection \<open>The state the plugin reads and writes\<close>

text \<open>
  \<open>window_size\<close> and \<open>content_scale\<close> are attributes of the plugin instance;
  \<open>gui_user_scale\<close>, \<open>gui_scale\<close> (\<open>g_pool.gui.scale\<close>) and \<open>gui_configuration\<close>
  live in \<open>g_pool\<close>. The \<open>win_\<close> fields, \<open>should_close\<close> and \<open>clipboard\<close> are what
  glfw reports for the main window (\<open>clipboard = None\<close>: glfwGetClipboardString
  returns None). \<open>gui_input_clipboard\<close> is the \<open>clipboard\<close> attribute of the user input
  that the next \<open>gui.update()\<close> returns. \<open>platform_system\<close> is \<open>platform.system()\<close>.
\<close>

record 'c state =
  window_size :: "int \<times> int"
  content_scale :: rat
  gui_user_scale :: rat
  gui_scale :: rat
  gui_configuration :: 'c
  platform_system :: string
  should_close :: bool
  win_pos :: "int \<times> int"
  win_size :: "int \<times> int"
  win_content_scale :: rat
  win_framebuffer_scale :: rat
  to_framebuffer :: "rat \<times> rat \<Rightarrow> rat \<times> rat"
  clipboard :: "string option"
  gui_input_clipboard :: "string option"
  trace :: "'c event list"

definition emit :: "'c event \<Rightarrow> 'c state \<Rightarrow> 'c state" where
  "emit e st = st\<lparr>trace := trace st @ [e]\<rparr>"

text \<open>
  Modelled from the spec: \<open>notify_all\<close>, inherited from the plugin base class, which is
  not part of this file. It is a fire-and-forget publish on the host's notification bus;
  the model records the published dictionary in the trace.
\<close>

definition notify_all :: "'c pydict \<Rightarrow> 'c state \<Rightarrow> 'c state" where
  "notify_all n st = emit (NotifyAll n) st"

text \<open>The glfw calls that change what glfw later reports.\<close>

definition glfwSetWindowShouldClose :: "bool \<Rightarrow> 'c state \<Rightarrow> 'c state" where
  "glfwSetWindowShouldClose v st = emit (GlfwSetWindowShouldClose v) (st\<lparr>should_close := v\<rparr>)"

definition glfwSetWindowSize :: "int \<Rightarrow> int \<Rightarrow> 'c state \<Rightarrow> 'c state" where
  "glfwSetWindowSize w h st = emit (GlfwSetWindowSize w h) (st\<lparr>win_size := (w, h)\<rparr>)"

definition glfwSetClipboardString :: "string \<Rightarrow> 'c state \<Rightarrow> 'c state" where
  "glfwSetClipboardString s st = emit (GlfwSetClipboardString s) (st\<lparr>clipboard := Some s\<rparr>)"

text \<open>\<open>glfwGetClipboardString(window).decode()\<close>: on None the attribute lookup raises.\<close>

definition clipboard_decode :: "string option \<Rightarrow> py_error + string" where
  "clipboard_decode c = (case c of None \<Rightarrow> Inl AttributeError | Some s \<Rightarrow> Inr s)"

subsection \<open>Module constants\<close>

definition scroll_factor :: "string \<Rightarrow> rat" where
  "scroll_factor sys =
     (if sys = ''Linux'' then 10 else if sys = ''Windows'' then 10 else 1)"

definition window_position_default :: "string \<Rightarrow> int \<times> int" where
  "window_position_default sys =
     (if sys = ''Linux'' then (30, 30) else if sys = ''Windows'' then (8, 90) else (0, 0))"

definition window_size_default :: "int \<times> int" where
  "window_size_default = (400, 400)"

subsection \<open>The render pass\<close>

definition gl_display :: "'c state \<Rightarrow> 'c state" where
  "gl_display st =
     (let st1 = emit MakeCoordSystemNormBased st;
          st2 = emit DrawGlTexture st1
      in emit (MakeCoordSystemPixelBased (snd (window_size st2)) (fst (window_size st2)) 3) st2)"

text \<open>
  \<open>update_ui\<close>. The callbacks that glfwPollEvents may dispatch are operations of their
  own in this model (\<open>on_resize\<close> and the input callbacks below); the poll itself is
  one trace event. The \<open>try\<close>/\<open>except AttributeError\<close> around the clipboard read is
  the case distinction on \<open>clipboard_decode\<close>. \<open>user_input.clipboard\<close> is truthy when
  it is a non-empty string.
\<close>

definition update_ui :: "'c state \<Rightarrow> 'c state" where
  "update_ui st =
     (if \<not> should_close st then
        (let st1 = emit (GlViewport 0 0 (fst (window_size st)) (snd (window_size st))) st;
             st2 = emit GlfwPollEvents st1;
             st3 = gl_display st2;
             clip = (case clipboard_decode (clipboard st3) of
                       Inr s \<Rightarrow> s
                     | Inl e \<Rightarrow> []);
             st4 = emit (GuiUpdateClipboard clip) st3;
             st5 = emit GuiUpdate st4;
             st6 = (case gui_input_clipboard st5 of
                      None \<Rightarrow> st5
                    | Some u \<Rightarrow>
                        if u \<noteq> [] \<and> u \<noteq> clip then glfwSetClipboardString u st5 else st5)
         in emit GlfwSwapBuffers st6)
      else notify_all [''subject'' \<mapsto> PStr ''service_process.should_stop''] st)"

subsection \<open>The callbacks and setters defined in the constructor\<close>

definition on_resize :: "int \<Rightarrow> int \<Rightarrow> 'c state \<Rightarrow> 'c state" where
  "on_resize w h st =
     (let st1 = st\<lparr>window_size := (w, h)\<rparr>;
          st2 = st1\<lparr>content_scale := win_content_scale st1\<rparr>;
          st3 = st2\<lparr>gui_scale := gui_user_scale st2 * content_scale st2\<rparr>;
          st4 = emit (GuiUpdateWindow w h) st3;
          st5 = emit GuiCollectMenus st4
      in update_ui st5)"

definition on_window_key :: "int \<Rightarrow> int \<Rightarrow> int \<Rightarrow> int \<Rightarrow> 'c state \<Rightarrow> 'c state" where
  "on_window_key key scancode action mods st = emit (GuiUpdateKey key scancode action mods) st"

definition on_window_char :: "int \<Rightarrow> 'c state \<Rightarrow> 'c state" where
  "on_window_char c st = emit (GuiUpdateChar c) st"

definition on_window_mouse_button :: "int \<Rightarrow> int \<Rightarrow> int \<Rightarrow> 'c state \<Rightarrow> 'c state" where
  "on_window_mouse_button button action mods st = emit (GuiUpdateButton button action mods) st"

definition on_pos :: "rat \<Rightarrow> rat \<Rightarrow> 'c state \<Rightarrow> 'c state" where
  "on_pos x y st =
     (let (x', y') = to_framebuffer st (x, y) in emit (GuiUpdateMouse x' y') st)"

definition on_scroll :: "rat \<Rightarrow> rat \<Rightarrow> 'c state \<Rightarrow> 'c state" where
  "on_scroll x y st = emit (GuiUpdateScroll x (y * scroll_factor (platform_system st))) st"

definition set_scale :: "rat \<Rightarrow> 'c state \<Rightarrow> 'c state" where
  "set_scale new_scale st =
     (let old_scale = gui_user_scale st;
          st1 = st\<lparr>gui_user_scale := new_scale\<rparr>
      in if old_scale = new_scale then st1
         else on_resize (fst (window_size st1)) (snd (window_size st1)) st1)"

text \<open>
  \<open>set_window_size\<close>. The baseline 400 is an int and is converted exactly; the division
  and the two products are float operations; \<open>int()\<close> of the width is evaluated before
  \<open>int()\<close> of the height, and both before the call to glfw.
\<close>

definition set_window_size :: "'c state \<Rightarrow> py_error + 'c state" where
  "set_window_size st =
     (let (f_width, f_height) = window_size_default;
          content_scale = win_content_scale st;
          framebuffer_scale = win_framebuffer_scale st
      in case py_truediv content_scale framebuffer_scale of
           Inl e \<Rightarrow> Inl e
         | Inr display_scale_factor \<Rightarrow>
             (let f_width' = py_mul (of_int f_width) display_scale_factor;
                  f_height' = py_mul (of_int f_height) display_scale_factor
              in case py_int_of_float f_width' of
                   Inl e \<Rightarrow> Inl e
                 | Inr w \<Rightarrow>
                     (case py_int_of_float f_height' of
                        Inl e \<Rightarrow> Inl e
                      | Inr h \<Rightarrow> Inr (glfwSetWindowSize w h st))))"

definition reset_restart :: "'c state \<Rightarrow> 'c state" where
  "reset_restart st =
     (let st1 = emit (LoggerWarning ''Resetting all settings and restarting Capture.'') st;
          st2 = glfwSetWindowShouldClose True st1;
          st3 = notify_all [''subject'' \<mapsto> PStr ''clear_settings_process.should_start''] st2
      in notify_all [''subject'' \<mapsto> PStr ''service_process.should_start'',
                     ''delay'' \<mapsto> PFloat 2] st3)"

subsection \<open>The methods of the plugin\<close>

text \<open>
  \<open>on_notify\<close>: a subscript on a missing key raises KeyError before anything is emitted.
\<close>

definition on_notify :: "'c pydict \<Rightarrow> 'c state \<Rightarrow> py_error + 'c state" where
  "on_notify notification st =
     (case notification ''subject'' of
        None \<Rightarrow> Inl (KeyError ''subject'')
      | Some subj \<Rightarrow>
          if subj = PStr ''service_process.ui.should_update'' then
            (case notification ''initial_delay'' of
               None \<Rightarrow> Inl (KeyError ''initial_delay'')
             | Some d \<Rightarrow>
                 (let notification' = notification(''delay'' \<mapsto> d);
                      st1 = notify_all notification' st
                  in Inr (update_ui st1)))
          else Inr st)"

text \<open>
  \<open>get_init_dict\<close> reads the window and emits nothing; \<open>0 not in (w, h)\<close> is
  \<open>w \<noteq> 0 \<and> h \<noteq> 0\<close>. On Windows and Linux the two quotients are computed first, the
  width's before the height's, then \<open>int()\<close> of each; on the other platforms \<open>int()\<close> is
  applied to the ints that glfw reports and changes nothing.
\<close>

definition get_init_dict :: "'c state \<Rightarrow> py_error + 'c pydict" where
  "get_init_dict st =
     (let sess = [''window_position'' \<mapsto> PPair (fst (win_pos st)) (snd (win_pos st)),
                  ''gui_scale'' \<mapsto> PFloat (gui_user_scale st),
                  ''ui_config'' \<mapsto> POpaque (gui_configuration st)];
          session_window_size = win_size st
      in if fst session_window_size \<noteq> 0 \<and> snd session_window_size \<noteq> 0 then
           (let (f_width, f_height) = session_window_size
            in if platform_system st = ''Windows'' \<or> platform_system st = ''Linux'' then
                 (let content_scale = win_content_scale st
                  in case py_int_truediv f_width content_scale of
                       Inl e \<Rightarrow> Inl e
                     | Inr fw \<Rightarrow>
                         (case py_int_truediv f_height content_scale of
                            Inl e \<Rightarrow> Inl e
                          | Inr fh \<Rightarrow>
                              (case py_int_of_float fw of
                                 Inl e \<Rightarrow> Inl e
                               | Inr w \<Rightarrow>
                                   (case py_int_of_float fh of
                                      Inl e \<Rightarrow> Inl e
                                    | Inr h \<Rightarrow> Inr (sess(''window_size'' \<mapsto> PPair w h))))))
               else Inr (sess(''window_size'' \<mapsto> PPair f_width f_height)))
         else Inr sess)"

text \<open>\<open>start_stop_eye\<close>, with the eye id an int and \<open>make_alive\<close> a bool.\<close>

definition start_stop_eye :: "int \<Rightarrow> bool \<Rightarrow> 'c state \<Rightarrow> 'c state" where
  "start_stop_eye eye_id make_alive st =
     (let n = (if make_alive then
                 [''subject'' \<mapsto> PStr (''eye_process.should_start.'' @ py_format_int eye_id),
                  ''eye_id'' \<mapsto> PInt eye_id]
               else
                 [''subject'' \<mapsto> PStr (''eye_process.should_stop.'' @ py_format_int eye_id),
                  ''eye_id'' \<mapsto> PInt eye_id,
                  ''delay'' \<mapsto> PFloat (1 / 5)])
      in notify_all n st)"

subsection \<open>Runs of the component\<close>

text \<open>
  What the window system does on its own between two calls into the plugin. glfw sets the
  close flag of a window when the user asks to close it and never clears it itself; only
  glfwSetWindowShouldClose does, and this file calls it with True alone.
\<close>

datatype window_system_change =
    CloseRequested
  | WindowMoved int int
  | WindowResized int int
  | ContentScaleChanged rat
  | FramebufferScaleChanged rat
  | ClipboardChanged "string option"
  | UserInputClipboard "string option"

fun window_system :: "window_system_change \<Rightarrow> 'c state \<Rightarrow> 'c state" where
  "window_system CloseRequested st = st\<lparr>should_close := True\<rparr>"
| "window_system (WindowMoved x y) st = st\<lparr>win_pos := (x, y)\<rparr>"
| "window_system (WindowResized w h) st = st\<lparr>win_size := (w, h)\<rparr>"
| "window_system (ContentScaleChanged c) st = st\<lparr>win_content_scale := c\<rparr>"
| "window_system (FramebufferScaleChanged f) st = st\<lparr>win_framebuffer_scale := f\<rparr>"
| "window_system (ClipboardChanged c) st = st\<lparr>clipboard := c\<rparr>"
| "window_system (UserInputClipboard u) st = st\<lparr>gui_input_clipboard := u\<rparr>"

text \<open>
  The entry points of the plugin, as the host, the window system and the widgets call
  them. \<open>cleanup\<close> is left out: it destroys the window and the plugin with it.
\<close>

datatype 'c op =
    OnResize int int
  | OnWindowKey int int int int
  | OnWindowChar int
  | OnWindowMouseButton int int int
  | OnPos rat rat
  | OnScroll rat rat
  | SetScale rat
  | SetWindowSize
  | ResetRestart
  | OnNotify "'c pydict"
  | UpdateUi
  | GetInitDict
  | StartStopEye int bool
  | WindowSystem window_system_change

text \<open>
  One call. An operation that raises has emitted nothing before the raise (see
  \<open>set_window_size\<close> and \<open>on_notify\<close>), so the state after it is the state before it.
\<close>

fun step :: "'c op \<Rightarrow> 'c state \<Rightarrow> 'c state" where
  "step (OnResize w h) st = on_resize w h st"
| "step (OnWindowKey key scancode action mods) st = on_window_key key scancode action mods st"
| "step (OnWindowChar c) st = on_window_char c st"
| "step (OnWindowMouseButton button action mods) st = on_window_mouse_button button action mods st"
| "step (OnPos x y) st = on_pos x y st"
| "step (OnScroll x y) st = on_scroll x y st"
| "step (SetScale s) st = set_scale s st"
| "step SetWindowSize st = (case set_window_size st of Inl e \<Rightarrow> st | Inr st' \<Rightarrow> st')"
| "step ResetRestart st = reset_restart st"
| "step (OnNotify n) st = (case on_notify n st of Inl e \<Rightarrow> st | Inr st' \<Rightarrow> st')"
| "step UpdateUi st = update_ui st"
| "step GetInitDict st = st"
| "step (StartStopEye eye_id make_alive) st = start_stop_eye eye_id make_alive st"
| "step (WindowSystem c) st = window_system c st"

definition run :: "'c op list \<Rightarrow> 'c state \<Rightarrow> 'c state" where
  "run ops st = fold step ops st"

subsection \<open>Reading a trace\<close>

fun is_close_action :: "'c event \<Rightarrow> bool" where
  "is_close_action (GlfwSetWindowShouldClose v) = v"
| "is_close_action _ = False"

fun is_swap :: "'c event \<Rightarrow> bool" where
  "is_swap GlfwSwapBuffers = True"
| "is_swap _ = False"

text \<open>A drawing call: anything sent to OpenGL or to the window's buffers.\<close>

fun is_drawing :: "'c event \<Rightarrow> bool" where
  "is_drawing GlfwSwapBuffers = True"
| "is_drawing (GlViewport _ _ _ _) = True"
| "is_drawing MakeCoordSystemNormBased = True"
| "is_drawing DrawGlTexture = True"
| "is_drawing (MakeCoordSystemPixelBased _ _ _) = True"
| "is_drawing _ = False"

fun is_notification :: "string \<Rightarrow> 'c event \<Rightarrow> bool" where
  "is_notification subj (NotifyAll n) = (n ''subject'' = Some (PStr subj))"
| "is_notification subj _ = False"

definition count_events :: "('c event \<Rightarrow> bool) \<Rightarrow> 'c event list \<Rightarrow> nat" where
  "count_events P tr = length (filter P tr)"

text \<open>\<open>emitted_before P Q tr\<close>: an event with \<open>Q\<close> follows the first event with \<open>P\<close>.\<close>

definition emitted_before :: "('c event \<Rightarrow> bool) \<Rightarrow> ('c event \<Rightarrow> bool) \<Rightarrow> 'c event list \<Rightarrow> bool" where
  "emitted_before P Q tr = list_ex Q (drop 1 (dropWhile (\<lambda>e. \<not> P e) tr))"

subsection \<open>The specification's reading of the reset size\<close>

text \<open>
  The sentence of the specification on the reset size, as written: the baseline 400
  scaled by \<open>c / f\<close> and rounded to the nearest integer. It is compared with
  \<open>set_window_size\<close> below.
\<close>

definition spec_reset_size :: "rat \<Rightarrow> rat \<Rightarrow> int \<times> int" where
  "spec_reset_size c f = (round (400 * c / f), round (400 * c / f))"

subsection \<open>A concrete window\<close>

text \<open>A running plugin on Linux, nothing emitted yet, the clipboard empty.\<close>

definition example_state :: "unit state" where
  "example_state =
     \<lparr>window_size = (400, 400), content_scale = 1, gui_user_scale = 1, gui_scale = 1,
      gui_configuration = (), platform_system = ''Linux'', should_close = False,
      win_pos = (30, 30), win_size = (400, 400), win_content_scale = 1,
      win_framebuffer_scale = 1, to_framebuffer = (\<lambda>p. p), clipboard = None,
      gui_input_clipboard = None, trace = []\<rparr>"

section \<open>Properties\<close>

subsection \<open>Doubles\<close>

lemma bit_length_bounds:
  "0 < n \<Longrightarrow> 2 ^ (bit_length n - 1) \<le> n \<and> n < 2 ^ bit_length n"
proof (induction n rule: bit_length.induct)
  case (1 n)
  show ?case
  proof (cases "n div 2 = 0")
    case True
    with "1.prems" have "n = 1" by (simp add: div_eq_0_iff)
    have "bit_length (Suc 0) = Suc 0"
      by (simp add: bit_length.simps [of "Suc 0"] bit_length.simps [of 0])
    with \<open>n = 1\<close> show ?thesis
      by simp
  next
    case False
    then have p: "0 < n div 2" by simp
    from "1.IH" [OF _ p] "1.prems"
    have ih: "2 ^ (bit_length (n div 2) - 1) \<le> n div 2" "n div 2 < 2 ^ bit_length (n div 2)"
      by simp_all
    have b: "bit_length n = Suc (bit_length (n div 2))"
      using "1.prems" by (subst bit_length.simps) simp
    have pos: "0 < bit_length (n div 2)"
      using p by (subst bit_length.simps) simp
    then obtain j where j: "bit_length (n div 2) = Suc j"
      by (cases "bit_length (n div 2)") simp_all
    from ih have h: "2 ^ j \<le> n div 2" "n div 2 < 2 ^ Suc j"
      unfolding j by simp_all
    from h(1) have "2 * 2 ^ j \<le> n"
      by arith
    moreover from h(2) have "n < 2 * 2 ^ Suc j"
      by arith
    ultimately show ?thesis
      unfolding b j by simp
  qed
qed

lemma pow2_less_imp: "(2::rat) powi j < 2 powi k \<Longrightarrow> j < k"
proof (rule ccontr)
  assume l: "(2::rat) powi j < 2 powi k" and "\<not> j < k"
  then have "k \<le> j" by simp
  then have "(2::rat) powi k \<le> 2 powi j"
    by (rule power_int_increasing) simp
  with l show False by simp
qed

lemma floor_log2_bounds:
  assumes "0 < a"
  shows "2 powi (floor_log2 a) \<le> a \<and> a < 2 powi (floor_log2 a + 1)"
proof -
  obtain n d where q: "quotient_of a = (n, d)"
    by (cases "quotient_of a")
  then have d: "0 < d" and a: "a = of_int n / of_int d"
    by (simp_all add: quotient_of_denom_pos quotient_of_div)
  from assms a d have n: "0 < n"
    by (simp add: zero_less_divide_iff)
  define bn bd where "bn = bit_length (nat n)" and "bd = bit_length (nat d)"
  define k where "k = int bn - int bd"
  from bit_length_bounds [of "nat n"] n
  have "2 ^ (bn - 1) \<le> nat n" "nat n < 2 ^ bn"
    by (simp_all add: bn_def)
  then have "int (2 ^ (bn - 1)) \<le> int (nat n)" "int (nat n) < int (2 ^ bn)"
    by (simp_all only: of_nat_le_iff of_nat_less_iff)
  with n have nb: "2 ^ (bn - 1) \<le> n" "n < 2 ^ bn"
    by simp_all
  from bit_length_bounds [of "nat d"] d
  have "2 ^ (bd - 1) \<le> nat d" "nat d < 2 ^ bd"
    by (simp_all add: bd_def)
  then have "int (2 ^ (bd - 1)) \<le> int (nat d)" "int (nat d) < int (2 ^ bd)"
    by (simp_all only: of_nat_le_iff of_nat_less_iff)
  with d have db: "2 ^ (bd - 1) \<le> d" "d < 2 ^ bd"
    by simp_all
  have bnpos: "0 < bn"
    using nb(2) n by (cases bn) simp_all
  have bdpos: "0 < bd"
    using db(2) d by (cases bd) simp_all
  have "(of_int (2 ^ (bn - 1)) :: rat) \<le> of_int n" "(of_int n :: rat) < of_int (2 ^ bn)"
    using nb by (simp_all only: of_int_le_iff of_int_less_iff)
  then have rn: "(2::rat) ^ (bn - 1) \<le> of_int n" "(of_int n :: rat) < 2 ^ bn"
    by simp_all
  have "(of_int (2 ^ (bd - 1)) :: rat) \<le> of_int d" "(of_int d :: rat) < of_int (2 ^ bd)"
    using db by (simp_all only: of_int_le_iff of_int_less_iff)
  then have rd: "(2::rat) ^ (bd - 1) \<le> of_int d" "(of_int d :: rat) < 2 ^ bd"
    by simp_all
  have dpos: "(0::rat) < of_int d"
    using d by simp
  have up: "a < 2 powi (k + 1)"
  proof -
    have "a < 2 ^ bn / of_int d"
      unfolding a using rn(2) dpos by (simp add: divide_strict_right_mono)
    also have "\<dots> \<le> 2 ^ bn / 2 ^ (bd - 1)"
      using rd(1) by (simp add: frac_le)
    also have "\<dots> = 2 powi (int bn - int (bd - 1))"
      by (simp add: power_int_diff)
    also have "int bn - int (bd - 1) = k + 1"
      using bdpos by (simp add: k_def)
    finally show ?thesis .
  qed
  have lo: "2 powi (k - 1) < a"
  proof -
    have "k - 1 = int (bn - 1) - int bd"
      using bnpos by (simp add: k_def of_nat_diff)
    then have "2 powi (k - 1) = (2::rat) powi (int (bn - 1) - int bd)"
      by (rule arg_cong)
    also have "\<dots> = 2 ^ (bn - 1) / 2 ^ bd"
      by (simp add: power_int_diff)
    also have "\<dots> < 2 ^ (bn - 1) / of_int d"
      using rd(2) dpos by (simp add: divide_strict_left_mono)
    also have "\<dots> \<le> a"
      unfolding a using rn(1) dpos by (simp add: divide_right_mono)
    finally show ?thesis .
  qed
  have f: "floor_log2 a = (if 2 powi k \<le> a then k else k - 1)"
    by (simp add: floor_log2_def q k_def bn_def bd_def Let_def)
  show ?thesis
  proof (cases "2 powi k \<le> a")
    case True
    with f up show ?thesis by simp
  next
    case False
    with f lo show ?thesis by simp
  qed
qed

lemma floor_log2_eqI:
  assumes "2 powi e \<le> a" and "a < 2 powi (e + 1)"
  shows "floor_log2 a = e"
proof -
  have "(0::rat) < 2 powi e" by simp
  then have pos: "0 < a" using assms(1) by (rule less_le_trans)
  from floor_log2_bounds [OF pos]
  have b: "2 powi (floor_log2 a) \<le> a" "a < 2 powi (floor_log2 a + 1)"
    by simp_all
  from b(1) assms(2) have "(2::rat) powi (floor_log2 a) < 2 powi (e + 1)"
    by (rule le_less_trans)
  then have "floor_log2 a < e + 1"
    by (rule pow2_less_imp)
  moreover from assms(1) b(2) have "(2::rat) powi e < 2 powi (floor_log2 a + 1)"
    by (rule le_less_trans)
  then have "e < floor_log2 a + 1"
    by (rule pow2_less_imp)
  ultimately show ?thesis by simp
qed

lemma round_half_even_nearest:
  assumes "\<bar>r - of_int m\<bar> < 1 / 2"
  shows "round_half_even r = m"
proof -
  from assms have "- (1 / 2) < r - of_int m" and "r - of_int m < 1 / 2"
    by (simp_all only: abs_less_iff minus_diff_eq) linarith+
  then have lo: "of_int m - 1 / 2 < r" and hi: "r < of_int m + 1 / 2"
    by linarith+
  show ?thesis
  proof (cases "of_int m \<le> r")
    case True
    with hi have f: "\<lfloor>r\<rfloor> = m"
      by (simp add: floor_eq_iff)
    with hi show ?thesis
      by (simp add: round_half_even_def Let_def)
  next
    case False
    with lo have f: "\<lfloor>r\<rfloor> = m - 1"
      by (simp add: floor_eq_iff)
    with lo show ?thesis
      by (simp add: round_half_even_def Let_def)
  qed
qed

lemma round_half_even_of_int: "round_half_even (of_int z) = z"
  by (rule round_half_even_nearest) simp

lemma round_to_double_eval:
  assumes "2 powi e \<le> x" and "x < 2 powi (e + 1)"
    and "q = max (e - 52) (- 1074)"
    and "\<bar>x / 2 powi q - of_int m\<bar> < 1 / 2"
  shows "round_to_double x = of_int m * 2 powi q"
proof -
  have "(0::rat) < 2 powi e" by simp
  then have pos: "0 < x" using assms(1) by (rule less_le_trans)
  then have a: "\<bar>x\<bar> = x" "sgn x = 1" "x \<noteq> 0"
    by simp_all
  have e: "floor_log2 x = e"
    using assms(1,2) by (rule floor_log2_eqI)
  have m: "round_half_even (x / 2 powi q) = m"
    using assms(4) by (rule round_half_even_nearest)
  show ?thesis
    by (simp add: round_to_double_def a e Let_def m flip: assms(3))
qed

lemma below_overflow: "\<bar>x\<bar> < 2 ^ 1023 \<Longrightarrow> \<bar>x\<bar> < double_overflow"
proof -
  assume l: "\<bar>x\<bar> < 2 ^ 1023"
  have "(2::rat) ^ 970 \<le> 2 ^ 1023"
    by (rule power_increasing) simp_all
  moreover have "(2::rat) ^ 1024 = 2 * 2 ^ 1023"
    by (simp flip: power_Suc)
  ultimately have "(2::rat) ^ 1023 \<le> double_overflow"
    by (simp add: double_overflow_def)
  with l show ?thesis by simp
qed

lemma to_double_finite:
  "\<bar>x\<bar> < double_overflow \<Longrightarrow> to_double x = Finite (round_to_double x)"
  by (simp add: to_double_def)

lemma round_to_double_int:
  assumes "\<bar>i\<bar> < 2 ^ 53"
  shows "round_to_double (of_int i) = of_int i"
proof (cases "i = 0")
  case True
  then show ?thesis by (simp add: round_to_double_def)
next
  case False
  define a :: rat where "a = \<bar>of_int i\<bar>"
  have ai: "a = of_int \<bar>i\<bar>"
    by (simp add: a_def)
  from False have "1 \<le> \<bar>i\<bar>" by simp
  then have "(of_int 1 :: rat) \<le> of_int \<bar>i\<bar>"
    by (simp only: of_int_le_iff)
  then have a1: "1 \<le> a" by (simp add: ai)
  from assms have "(of_int \<bar>i\<bar> :: rat) < of_int (2 ^ 53)"
    by (simp only: of_int_less_iff)
  then have a53: "a < 2 powi 53" by (simp add: ai)
  have pos: "0 < a" using a1 by simp
  define e where "e = floor_log2 a"
  from floor_log2_bounds [OF pos]
  have b: "2 powi e \<le> a" "a < 2 powi (e + 1)"
    by (simp_all add: e_def)
  from b(1) a53 have "(2::rat) powi e < 2 powi 53"
    by (rule le_less_trans)
  then have e53: "e < 53" by (rule pow2_less_imp)
  have "(2::rat) powi 0 \<le> a" using a1 by simp
  then have "(2::rat) powi 0 < 2 powi (e + 1)" using b(2) by (rule le_less_trans)
  then have e0: "0 < e + 1" by (rule pow2_less_imp)
  define q where "q = max (e - 52) (- 1074)"
  have q: "q = e - 52" "q \<le> 0"
    using e53 e0 by (simp_all add: q_def)
  define k where "k = nat (- q)"
  have qk: "q = - int k" using q(2) by (simp add: k_def)
  have p: "(2::rat) powi q = 1 / 2 ^ k"
    unfolding qk by (simp add: power_int_minus field_simps)
  have "a / 2 powi q = of_int (\<bar>i\<bar> * 2 ^ k)"
    by (simp add: p ai)
  then have m: "round_half_even (a / 2 powi q) = \<bar>i\<bar> * 2 ^ k"
    by (simp only: round_half_even_of_int)
  have nz: "(of_int i :: rat) \<noteq> 0"
    using False by simp
  have "round_to_double (of_int i)
      = sgn (of_int i) * of_int (round_half_even (a / 2 powi q)) * 2 powi q"
    unfolding round_to_double_def Let_def a_def e_def q_def using nz by simp
  then have "round_to_double (of_int i) = sgn (of_int i) * of_int (\<bar>i\<bar> * 2 ^ k) * 2 powi q"
    by (simp only: m)
  also have "\<dots> = sgn (of_int i) * a"
    by (simp add: p ai)
  also have "\<dots> = of_int i"
    by (simp add: a_def sgn_mult_abs)
  finally show ?thesis .
qed

lemma to_double_int:
  assumes "\<bar>i\<bar> < 2 ^ 53"
  shows "to_double (of_int i) = Finite (of_int i)"
proof -
  from assms have "(of_int \<bar>i\<bar> :: rat) < of_int (2 ^ 53)"
    by (simp only: of_int_less_iff)
  then have l: "\<bar>of_int i :: rat\<bar> < 2 ^ 53"
    by simp
  have "(2::rat) ^ 53 \<le> 2 ^ 1023"
    by (rule power_increasing) simp_all
  with l have "\<bar>of_int i :: rat\<bar> < 2 ^ 1023"
    by (rule less_le_trans)
  then have "\<bar>of_int i :: rat\<bar> < double_overflow"
    by (rule below_overflow)
  then have "to_double (of_int i) = Finite (round_to_double (of_int i))"
    by (rule to_double_finite)
  with assms show ?thesis
    by (simp only: round_to_double_int)
qed

lemma py_int_truediv_finite:
  assumes "\<bar>i\<bar> < 2 ^ 53" and "b \<noteq> 0" and "\<bar>of_int i / b\<bar> < double_overflow"
  shows "py_int_truediv i b = Inr (Finite (round_to_double (of_int i / b)))"
  using assms(2)
  by (simp add: py_int_truediv_def py_float_of_int_def to_double_int [OF assms(1)]
      py_truediv_def to_double_finite [OF assms(3)])

subsection \<open>Events and the render pass\<close>

lemma trace_emit [simp]: "trace (emit e st) = trace st @ [e]"
  by (simp add: emit_def)

lemma emit_fields [simp]:
  "window_size (emit e st) = window_size st"
  "content_scale (emit e st) = content_scale st"
  "gui_user_scale (emit e st) = gui_user_scale st"
  "gui_scale (emit e st) = gui_scale st"
  "gui_configuration (emit e st) = gui_configuration st"
  "platform_system (emit e st) = platform_system st"
  "should_close (emit e st) = should_close st"
  "win_pos (emit e st) = win_pos st"
  "win_size (emit e st) = win_size st"
  "win_content_scale (emit e st) = win_content_scale st"
  "win_framebuffer_scale (emit e st) = win_framebuffer_scale st"
  "to_framebuffer (emit e st) = to_framebuffer st"
  "clipboard (emit e st) = clipboard st"
  "gui_input_clipboard (emit e st) = gui_input_clipboard st"
  by (simp_all add: emit_def)

lemma update_ui_closing:
  "should_close st \<Longrightarrow>
   update_ui st =
     st\<lparr>trace := trace st @ [NotifyAll [''subject'' \<mapsto> PStr ''service_process.should_stop'']]\<rparr>"
  by (simp add: update_ui_def notify_all_def emit_def)

lemma update_ui_running_trace:
  "\<not> should_close st \<Longrightarrow>
   trace (update_ui st) =
     trace st
     @ [GlViewport 0 0 (fst (window_size st)) (snd (window_size st)), GlfwPollEvents,
        MakeCoordSystemNormBased, DrawGlTexture,
        MakeCoordSystemPixelBased (snd (window_size st)) (fst (window_size st)) 3,
        GuiUpdateClipboard (case clipboard st of None \<Rightarrow> [] | Some s \<Rightarrow> s), GuiUpdate]
     @ (case gui_input_clipboard st of
          None \<Rightarrow> []
        | Some u \<Rightarrow>
            if u \<noteq> [] \<and> u \<noteq> (case clipboard st of None \<Rightarrow> [] | Some s \<Rightarrow> s)
            then [GlfwSetClipboardString u] else [])
     @ [GlfwSwapBuffers]"
  by (simp add: update_ui_def gl_display_def glfwSetClipboardString_def clipboard_decode_def
      Let_def split: option.splits)

lemma update_ui_fields:
  "window_size (update_ui st) = window_size st"
  "content_scale (update_ui st) = content_scale st"
  "gui_user_scale (update_ui st) = gui_user_scale st"
  "gui_scale (update_ui st) = gui_scale st"
  "should_close (update_ui st) = should_close st"
  by (simp_all add: update_ui_def gl_display_def glfwSetClipboardString_def clipboard_decode_def
      notify_all_def Let_def split: option.splits)

subsection \<open>Formatting an eye id\<close>

lemma str_nat_digit: "n < 10 \<Longrightarrow> str_nat n = [digit_char n]"
  by (subst str_nat.simps) simp

lemma str_nat_step:
  "\<not> n < 10 \<Longrightarrow> str_nat n = str_nat (n div 10) @ [digit_char n]"
  by (subst str_nat.simps) simp

lemma py_format_int_examples:
  "py_format_int 0 = ''0''" "py_format_int 1 = ''1''"
  by (simp_all add: py_format_int_def str_nat_digit digit_char_def)

lemma below_ten:
  "d < 10 \<Longrightarrow>
   d = 0 \<or> d = 1 \<or> d = 2 \<or> d = 3 \<or> d = 4 \<or> d = 5 \<or> d = 6 \<or> d = 7 \<or> d = 8 \<or> d = (9::nat)"
  by arith

lemma digit_char_cases:
  "digit_char 0 = CHR ''0''" "digit_char 1 = CHR ''1''" "digit_char 2 = CHR ''2''"
  "digit_char 3 = CHR ''3''" "digit_char 4 = CHR ''4''" "digit_char 5 = CHR ''5''"
  "digit_char 6 = CHR ''6''" "digit_char 7 = CHR ''7''" "digit_char 8 = CHR ''8''"
  "digit_char 9 = CHR ''9''" "digit_char (Suc 0) = CHR ''1''"
  by (simp_all add: digit_char_def)

lemma digit_char_mod: "digit_char n = digit_char (n mod 10)"
  by (simp add: digit_char_def)

lemma digit_char_facts:
  assumes "d < 10"
  shows "digit_value (digit_char d) = d" and "is_digit (digit_char d)"
    and "digit_char d \<noteq> CHR ''-''" and "(digit_char d = CHR ''0'') = (d = 0)"
  using below_ten [OF assms]
  by (auto simp add: digit_char_cases digit_value_def is_digit_def)

lemma digit_char_any:
  "digit_value (digit_char n) = n mod 10" "is_digit (digit_char n)"
  "digit_char n \<noteq> CHR ''-''"
proof -
  have l: "n mod 10 < 10" by simp
  show "digit_value (digit_char n) = n mod 10"
    by (subst digit_char_mod) (rule digit_char_facts(1) [OF l])
  show "is_digit (digit_char n)"
    by (subst digit_char_mod) (rule digit_char_facts(2) [OF l])
  show "digit_char n \<noteq> CHR ''-''"
    by (subst digit_char_mod) (rule digit_char_facts(3) [OF l])
qed

lemma str_nat_not_empty: "str_nat n \<noteq> []"
  by (subst str_nat.simps) simp

lemma nat_of_decimal_snoc:
  "nat_of_decimal (s @ [c]) = 10 * nat_of_decimal s + digit_value c"
  by (simp add: nat_of_decimal_def)

lemma nat_of_decimal_str_nat: "nat_of_decimal (str_nat n) = n"
proof (induction n rule: str_nat.induct)
  case (1 n)
  show ?case
  proof (cases "n < 10")
    case True
    then show ?thesis
      by (simp add: str_nat_digit nat_of_decimal_def digit_char_facts(1))
  next
    case False
    with "1.IH" have "nat_of_decimal (str_nat (n div 10)) = n div 10"
      by simp
    with False show ?thesis
      by (simp add: str_nat_step nat_of_decimal_snoc digit_char_any(1))
  qed
qed

lemma str_nat_digits: "list_all is_digit (str_nat n)"
proof (induction n rule: str_nat.induct)
  case (1 n)
  show ?case
  proof (cases "n < 10")
    case True
    then show ?thesis
      by (simp add: str_nat_digit digit_char_any(2))
  next
    case False
    with "1.IH" have "list_all is_digit (str_nat (n div 10))"
      by simp
    with False show ?thesis
      by (simp add: str_nat_step digit_char_any(2))
  qed
qed

lemma str_nat_leading_zero: "(hd (str_nat n) = CHR ''0'') = (n = 0)"
proof (induction n rule: str_nat.induct)
  case (1 n)
  show ?case
  proof (cases "n < 10")
    case True
    then show ?thesis
      by (simp add: str_nat_digit digit_char_facts(4))
  next
    case False
    with "1.IH" have "(hd (str_nat (n div 10)) = CHR ''0'') = (n div 10 = 0)"
      by simp
    moreover from False have "n div 10 \<noteq> 0" "n \<noteq> 0"
      by simp_all
    ultimately show ?thesis
      using False by (simp add: str_nat_step str_nat_not_empty)
  qed
qed

lemma str_nat_no_sign: "hd (str_nat n) \<noteq> CHR ''-''"
proof -
  have "is_digit (hd (str_nat n))"
    using str_nat_digits [of n] str_nat_not_empty [of n]
    by (cases "str_nat n") simp_all
  then show ?thesis
    by (auto simp add: is_digit_def)
qed

lemma int_of_decimal_format: "int_of_decimal (py_format_int i) = i"
proof (cases "i < 0")
  case True
  then show ?thesis
    by (simp add: py_format_int_def int_of_decimal_def nat_of_decimal_str_nat)
next
  case False
  obtain c t where ct: "str_nat (nat i) = c # t"
    using str_nat_not_empty [of "nat i"] by (cases "str_nat (nat i)") simp_all
  with str_nat_no_sign [of "nat i"] have "c \<noteq> CHR ''-''"
    by simp
  with False ct nat_of_decimal_str_nat [of "nat i"] show ?thesis
    by (simp add: py_format_int_def int_of_decimal_def)
qed

subsection \<open>Restart with defaults\<close>

text \<open>
  C1, as the code has it. \<open>reset_restart\<close> logs a warning, marks the window as closing
  first, and only then publishes \<open>clear_settings_process.should_start\<close> followed by
  \<open>service_process.should_start\<close> with delay 2.0. The window is marked as closing, and the
  operation performs exactly one close-window action.
\<close>
theorem reset_restart_order:
  "trace (reset_restart st) =
     trace st
     @ [LoggerWarning ''Resetting all settings and restarting Capture.'',
        GlfwSetWindowShouldClose True,
        NotifyAll [''subject'' \<mapsto> PStr ''clear_settings_process.should_start''],
        NotifyAll [''subject'' \<mapsto> PStr ''service_process.should_start'', ''delay'' \<mapsto> PFloat 2]]
   \<and> should_close (reset_restart st)
   \<and> count_events is_close_action (trace (reset_restart st))
       = count_events is_close_action (trace st) + 1"
  by (simp add: reset_restart_def notify_all_def glfwSetWindowShouldClose_def emit_def
      count_events_def Let_def)

text \<open>
  C1 as the specification words it puts the close-window action after the two
  notifications. On the example window the close-window action is the second event of the
  operation: it does not follow the start request, it precedes the clear-settings request.
\<close>
theorem reset_restart_close_first:
  "trace (reset_restart example_state) =
     [LoggerWarning ''Resetting all settings and restarting Capture.'',
      GlfwSetWindowShouldClose True,
      NotifyAll [''subject'' \<mapsto> PStr ''clear_settings_process.should_start''],
      NotifyAll [''subject'' \<mapsto> PStr ''service_process.should_start'', ''delay'' \<mapsto> PFloat 2]]
   \<and> \<not> emitted_before (is_notification ''service_process.should_start'') is_close_action
         (trace (reset_restart example_state))
   \<and> emitted_before is_close_action (is_notification ''clear_settings_process.should_start'')
         (trace (reset_restart example_state))"
  by (simp add: reset_restart_def notify_all_def glfwSetWindowShouldClose_def emit_def
      emitted_before_def example_state_def Let_def)

subsection \<open>Setting the user scale\<close>

text \<open>
  C2. Calling \<open>set_scale\<close> with the scale already in effect returns the state as it was:
  the stored scale, the widget system's scale and the window size are unchanged and the
  trace has no new event (no window update, no repaint).
\<close>
theorem set_scale_same_value: "set_scale (gui_user_scale st) st = st"
  by (simp add: set_scale_def)

text \<open>With any other value the setter stores it and goes through \<open>on_resize\<close>.\<close>
lemma set_scale_other_value:
  "gui_user_scale st \<noteq> s \<Longrightarrow>
   set_scale s st =
     on_resize (fst (window_size st)) (snd (window_size st)) (st\<lparr>gui_user_scale := s\<rparr>)"
  by (simp add: set_scale_def)

subsection \<open>The close flag is never cleared\<close>

lemma set_window_size_should_close:
  "set_window_size st = Inr st' \<Longrightarrow> should_close st' = should_close st"
  by (auto simp: set_window_size_def glfwSetWindowSize_def window_size_default_def
      Let_def split: sum.splits)

lemma on_resize_should_close: "should_close (on_resize w h st) = should_close st"
  by (simp add: on_resize_def update_ui_fields Let_def)

lemma set_scale_should_close: "should_close (set_scale s st) = should_close st"
  by (simp add: set_scale_def on_resize_should_close Let_def)

lemma on_notify_should_close:
  "on_notify n st = Inr st' \<Longrightarrow> should_close st' = should_close st"
  by (auto simp: on_notify_def update_ui_fields notify_all_def Let_def
      split: option.splits if_splits)

lemma step_keeps_closing: "should_close st \<Longrightarrow> should_close (step x st)"
proof (cases x)
  case (WindowSystem c)
  assume "should_close st"
  then show ?thesis unfolding WindowSystem by (cases c) simp_all
next
  case SetWindowSize
  assume "should_close st"
  then show ?thesis unfolding SetWindowSize
    by (auto split: sum.splits dest: set_window_size_should_close)
next
  case (OnNotify n)
  assume "should_close st"
  then show ?thesis unfolding OnNotify
    by (auto split: sum.splits dest: on_notify_should_close)
qed (simp_all add: on_resize_should_close set_scale_should_close update_ui_fields
      on_window_key_def on_window_char_def on_window_mouse_button_def on_pos_def on_scroll_def
      reset_restart_def glfwSetWindowShouldClose_def notify_all_def start_stop_eye_def Let_def
      split: prod.splits)

lemma run_keeps_closing: "should_close st \<Longrightarrow> should_close (run ops st)"
  unfolding run_def by (induction ops arbitrary: st) (simp_all add: step_keeps_closing)

lemma emit_repeat: "(emit e ^^ k) st = st\<lparr>trace := trace st @ replicate k e\<rparr>"
proof (induction k)
  case 0
  then show ?case by simp
next
  case (Suc k)
  have "replicate k e @ [e] = e # replicate k e"
    by (rule replicate_append_same)
  with Suc show ?case by (simp add: emit_def)
qed

lemma update_ui_closing_emit:
  "should_close st \<Longrightarrow>
   update_ui st = emit (NotifyAll [''subject'' \<mapsto> PStr ''service_process.should_stop'']) st"
  by (simp add: update_ui_def notify_all_def)

lemma update_ui_closing_funpow:
  "should_close st \<Longrightarrow>
   (update_ui ^^ k) st
     = (emit (NotifyAll [''subject'' \<mapsto> PStr ''service_process.should_stop'']) ^^ k) st"
proof (induction k)
  case 0
  then show ?case by simp
next
  case (Suc k)
  let ?e = "NotifyAll [''subject'' \<mapsto> PStr ''service_process.should_stop'']"
  have "should_close ((emit ?e ^^ k) st)"
    using Suc.prems by (simp only: emit_repeat) simp
  then have "update_ui ((emit ?e ^^ k) st) = emit ?e ((emit ?e ^^ k) st)"
    by (rule update_ui_closing_emit)
  with Suc show ?case by (simp only: funpow.simps o_apply)
qed

lemma update_ui_closing_repeat:
  "should_close st \<Longrightarrow>
   (update_ui ^^ k) st =
     st\<lparr>trace := trace st
            @ replicate k (NotifyAll [''subject'' \<mapsto> PStr ''service_process.should_stop''])\<rparr>"
  by (simp only: update_ui_closing_funpow emit_repeat)

text \<open>
  C3. Once the window reports that it should close, it keeps reporting so after any
  sequence of calls into the plugin and of window-system changes: there is no way back
  to the running state. In that state one \<open>update_ui\<close> appends exactly the notification
  \<open>service_process.should_stop\<close> and changes nothing else, \<open>k\<close> calls append \<open>k\<close>
  of them, and no drawing call is made.
\<close>
theorem close_pending_is_final:
  assumes "should_close st"
  shows "should_close (run ops st)
    \<and> update_ui (run ops st) =
        (run ops st)\<lparr>trace := trace (run ops st)
           @ [NotifyAll [''subject'' \<mapsto> PStr ''service_process.should_stop'']]\<rparr>
    \<and> (update_ui ^^ k) (run ops st) =
        (run ops st)\<lparr>trace := trace (run ops st)
           @ replicate k (NotifyAll [''subject'' \<mapsto> PStr ''service_process.should_stop''])\<rparr>
    \<and> count_events is_drawing (trace ((update_ui ^^ k) (run ops st)))
        = count_events is_drawing (trace (run ops st))"
proof -
  have c: "should_close (run ops st)"
    using assms by (rule run_keeps_closing)
  have r: "(update_ui ^^ k) (run ops st) =
        (run ops st)\<lparr>trace := trace (run ops st)
           @ replicate k (NotifyAll [''subject'' \<mapsto> PStr ''service_process.should_stop''])\<rparr>"
    using c by (rule update_ui_closing_repeat)
  have d: "count_events is_drawing (trace ((update_ui ^^ k) (run ops st)))
        = count_events is_drawing (trace (run ops st))"
    unfolding r by (simp add: count_events_def)
  show ?thesis using c r d by (simp add: update_ui_closing)
qed

text \<open>
  The example window after a close request, a resize and a render pass, then two more
  render passes.
\<close>
theorem close_pending_is_final_witness:
  "should_close (window_system CloseRequested example_state)
   \<and> should_close (run [OnResize 300 200, UpdateUi] (window_system CloseRequested example_state))
   \<and> trace ((update_ui ^^ 2)
         (run [OnResize 300 200, UpdateUi] (window_system CloseRequested example_state)))
       = trace (run [OnResize 300 200, UpdateUi] (window_system CloseRequested example_state))
         @ [NotifyAll [''subject'' \<mapsto> PStr ''service_process.should_stop''],
            NotifyAll [''subject'' \<mapsto> PStr ''service_process.should_stop'']]"
proof -
  have h: "should_close (window_system CloseRequested example_state)"
    by simp
  have r: "replicate 2 x = [x, x]" for x :: "unit event"
    by (simp add: numeral_2_eq_2)
  from close_pending_is_final [OF h, of "[OnResize 300 200, UpdateUi]" 2] h r
  show ?thesis by simp
qed

subsection \<open>Resetting the window size\<close>

lemma set_window_size_finite:
  assumes "win_framebuffer_scale st \<noteq> 0"
    and "\<bar>win_content_scale st / win_framebuffer_scale st\<bar> < double_overflow"
    and "\<bar>400 * round_to_double (win_content_scale st / win_framebuffer_scale st)\<bar>
          < double_overflow"
  shows "set_window_size st =
     Inr (glfwSetWindowSize
            (py_int (round_to_double
               (400 * round_to_double (win_content_scale st / win_framebuffer_scale st))))
            (py_int (round_to_double
               (400 * round_to_double (win_content_scale st / win_framebuffer_scale st))))
            st)"
  using assms(1)
  by (simp add: set_window_size_def window_size_default_def py_truediv_def py_mul_def
      py_int_of_float_def to_double_finite [OF assms(2)] to_double_finite [OF assms(3)] Let_def)

text \<open>The two ways \<open>set_window_size\<close> raises: a zero divisor, and a size out of range.\<close>

lemma set_window_size_raises:
  "win_framebuffer_scale st = 0 \<Longrightarrow> set_window_size st = Inl ZeroDivisionError"
  "win_framebuffer_scale st \<noteq> 0 \<Longrightarrow>
   double_overflow \<le> \<bar>win_content_scale st / win_framebuffer_scale st\<bar> \<Longrightarrow>
   set_window_size st = Inl OverflowError"
  by (simp_all add: set_window_size_def window_size_default_def py_truediv_def py_mul_def
      py_int_of_float_def to_double_def Let_def)

text \<open>The doubles of the examples below.\<close>

lemma double_23_5: "round_to_double (23 / 5) = 5179139571476070 / 2 ^ 50"
proof -
  have "round_to_double (23 / 5) = of_int 5179139571476070 * 2 powi (- 50)"
    by (rule round_to_double_eval [where e = 2]) simp_all
  then show ?thesis by (simp add: power_int_minus)
qed

lemma double_1840: "round_to_double (400 * (5179139571476070 / 2 ^ 50)) = 8092405580431359 / 2 ^ 42"
proof -
  have "round_to_double (400 * (5179139571476070 / 2 ^ 50))
      = of_int 8092405580431359 * 2 powi (- 42)"
    by (rule round_to_double_eval [where e = 10]) simp_all
  then show ?thesis by (simp add: power_int_minus)
qed

lemma double_2_3: "round_to_double (2 / 3) = 6004799503160661 / 2 ^ 53"
proof -
  have "round_to_double (2 / 3) = of_int 6004799503160661 * 2 powi (- 53)"
    by (rule round_to_double_eval [where e = "- 1"]) simp_all
  then show ?thesis by (simp add: power_int_minus)
qed

lemma double_267: "round_to_double (400 * (6004799503160661 / 2 ^ 53)) = 4691249611844266 / 2 ^ 44"
proof -
  have "round_to_double (400 * (6004799503160661 / 2 ^ 53))
      = of_int 4691249611844266 * 2 powi (- 44)"
    by (rule round_to_double_eval [where e = 8]) simp_all
  then show ?thesis by (simp add: power_int_minus)
qed

text \<open>
  C4, as the code has it. When the framebuffer scale \<open>f\<close> is not zero and the quotient
  \<open>c / f\<close> and its product with 400 are in the range of a double, \<open>set_window_size\<close>
  asks glfw for the size \<open>(n, n)\<close> with \<open>n = int(400 * (c / f))\<close>, where the division and
  the multiplication each round to the nearest double and \<open>int\<close> truncates toward zero,
  and it emits nothing else.
\<close>
theorem set_window_size_truncates:
  assumes "win_framebuffer_scale st \<noteq> 0"
    and "\<bar>win_content_scale st / win_framebuffer_scale st\<bar> < double_overflow"
    and "\<bar>400 * round_to_double (win_content_scale st / win_framebuffer_scale st)\<bar>
          < double_overflow"
  shows "set_window_size st =
     Inr (st\<lparr>win_size :=
               (py_int (round_to_double
                  (400 * round_to_double (win_content_scale st / win_framebuffer_scale st))),
                py_int (round_to_double
                  (400 * round_to_double (win_content_scale st / win_framebuffer_scale st)))),
             trace := trace st
               @ [GlfwSetWindowSize
                    (py_int (round_to_double
                       (400 * round_to_double (win_content_scale st / win_framebuffer_scale st))))
                    (py_int (round_to_double
                       (400 * round_to_double (win_content_scale st / win_framebuffer_scale st))))]\<rparr>)"
  by (simp add: set_window_size_finite [OF assms] glfwSetWindowSize_def emit_def)

text \<open>
  Content scale 5.75 on framebuffer scale 1.25: the quotient is the double next below
  4.6, the product the double next below 1840, and the window is 1839 by 1839.
\<close>
theorem set_window_size_truncates_witness:
  "set_window_size (example_state\<lparr>win_content_scale := 23 / 4, win_framebuffer_scale := 5 / 4\<rparr>)
     = Inr (example_state\<lparr>win_content_scale := 23 / 4, win_framebuffer_scale := 5 / 4,
              win_size := (1839, 1839), trace := [GlfwSetWindowSize 1839 1839]\<rparr>)"
proof -
  let ?st = "example_state\<lparr>win_content_scale := 23 / 4, win_framebuffer_scale := 5 / 4\<rparr>"
  have q: "win_content_scale ?st / win_framebuffer_scale ?st = 23 / 5"
    by simp
  have h1: "win_framebuffer_scale ?st \<noteq> 0"
    by simp
  have "\<bar>23 / 5 :: rat\<bar> < 2 ^ 1023"
    by simp
  then have "\<bar>23 / 5 :: rat\<bar> < double_overflow"
    by (rule below_overflow)
  then have h2: "\<bar>win_content_scale ?st / win_framebuffer_scale ?st\<bar> < double_overflow"
    by (simp only: q)
  have "\<bar>400 * (5179139571476070 / 2 ^ 50) :: rat\<bar> < 2 ^ 1023"
    by simp
  then have "\<bar>400 * (5179139571476070 / 2 ^ 50) :: rat\<bar> < double_overflow"
    by (rule below_overflow)
  then have h3: "\<bar>400 * round_to_double (win_content_scale ?st / win_framebuffer_scale ?st)\<bar>
      < double_overflow"
    by (simp only: q double_23_5)
  have t: "py_int (8092405580431359 / 2 ^ 42) = 1839"
    by (simp add: py_int_def floor_eq_iff)
  from set_window_size_truncates [OF h1 h2 h3] show ?thesis
    by (simp only: q double_23_5 double_1840 t) (simp add: example_state_def)
qed

text \<open>
  C4 as the specification words it, with the size rounded to the nearest integer, gives
  267 by 267 for content scale 2 and framebuffer scale 3, where the code asks for 266 by
  266; and for framebuffer scale 0 the code raises ZeroDivisionError and resizes nothing.
\<close>
theorem set_window_size_not_rounded:
  "map_sum id win_size
     (set_window_size (example_state\<lparr>win_content_scale := 2, win_framebuffer_scale := 3\<rparr>))
     = Inr (266, 266)
   \<and> spec_reset_size 2 3 = (267, 267)
   \<and> map_sum id win_size
       (set_window_size (example_state\<lparr>win_content_scale := 2, win_framebuffer_scale := 3\<rparr>))
       \<noteq> Inr (spec_reset_size 2 3)
   \<and> set_window_size (example_state\<lparr>win_content_scale := 1, win_framebuffer_scale := 0\<rparr>)
       = Inl ZeroDivisionError"
proof -
  let ?st = "example_state\<lparr>win_content_scale := 2, win_framebuffer_scale := 3\<rparr>"
  have q: "win_content_scale ?st / win_framebuffer_scale ?st = 2 / 3"
    by simp
  have h1: "win_framebuffer_scale ?st \<noteq> 0"
    by simp
  have "\<bar>2 / 3 :: rat\<bar> < 2 ^ 1023"
    by simp
  then have "\<bar>2 / 3 :: rat\<bar> < double_overflow"
    by (rule below_overflow)
  then have h2: "\<bar>win_content_scale ?st / win_framebuffer_scale ?st\<bar> < double_overflow"
    by (simp only: q)
  have "\<bar>400 * (6004799503160661 / 2 ^ 53) :: rat\<bar> < 2 ^ 1023"
    by simp
  then have "\<bar>400 * (6004799503160661 / 2 ^ 53) :: rat\<bar> < double_overflow"
    by (rule below_overflow)
  then have h3: "\<bar>400 * round_to_double (win_content_scale ?st / win_framebuffer_scale ?st)\<bar>
      < double_overflow"
    by (simp only: q double_2_3)
  have t: "py_int (4691249611844266 / 2 ^ 44) = 266"
    by (simp add: py_int_def floor_eq_iff)
  have "set_window_size ?st = Inr (glfwSetWindowSize 266 266 ?st)"
    by (simp only: set_window_size_finite [OF h1 h2 h3] q double_2_3 double_267 t)
  then have a: "map_sum id win_size (set_window_size ?st) = Inr (266, 266)"
    by (simp add: glfwSetWindowSize_def)
  have r: "spec_reset_size 2 3 = (267, 267)"
    by (simp add: spec_reset_size_def round_def floor_eq_iff)
  have z: "set_window_size (example_state\<lparr>win_content_scale := 1, win_framebuffer_scale := 0\<rparr>)
       = Inl ZeroDivisionError"
    by (rule set_window_size_raises(1)) simp
  show ?thesis
    unfolding a r using z by simp
qed

subsection \<open>Resizing\<close>

lemma update_ui_counts:
  "count_events is_swap (trace (update_ui st))
     = count_events is_swap (trace st) + (if should_close st then 0 else 1)"
  "count_events (is_notification ''service_process.should_stop'') (trace (update_ui st))
     = count_events (is_notification ''service_process.should_stop'') (trace st)
       + (if should_close st then 1 else 0)"
  by (simp_all add: update_ui_running_trace update_ui_closing count_events_def
      split: option.splits)

text \<open>
  C5. \<open>on_resize w h\<close> stores \<open>(w, h)\<close> as the window size, sets the widget system's
  scale to the product of the user scale and the content scale that glfw reports, hands
  the new size to the widget system (\<open>update_window\<close>, \<open>collect_menus\<close>) and then runs
  \<open>update_ui\<close> once within the same call: one buffer swap when the window is running,
  one stop notification and no swap when it is closing. This holds for every user scale
  and content scale, the listed ones included.
\<close>
theorem on_resize_effects:
  "on_resize w h st =
     update_ui (st\<lparr>window_size := (w, h),
                    content_scale := win_content_scale st,
                    gui_scale := gui_user_scale st * win_content_scale st,
                    trace := trace st @ [GuiUpdateWindow w h, GuiCollectMenus]\<rparr>)
   \<and> window_size (on_resize w h st) = (w, h)
   \<and> gui_scale (on_resize w h st) = gui_user_scale st * win_content_scale st
   \<and> count_events is_swap (trace (on_resize w h st))
       = count_events is_swap (trace st) + (if should_close st then 0 else 1)
   \<and> count_events (is_notification ''service_process.should_stop'') (trace (on_resize w h st))
       = count_events (is_notification ''service_process.should_stop'') (trace st)
         + (if should_close st then 1 else 0)"
proof -
  let ?st' = "st\<lparr>window_size := (w, h),
                    content_scale := win_content_scale st,
                    gui_scale := gui_user_scale st * win_content_scale st,
                    trace := trace st @ [GuiUpdateWindow w h, GuiCollectMenus]\<rparr>"
  have e: "on_resize w h st = update_ui ?st'"
    by (simp add: on_resize_def emit_def Let_def)
  have "count_events is_swap (trace ?st') = count_events is_swap (trace st)"
    and "count_events (is_notification ''service_process.should_stop'') (trace ?st')
       = count_events (is_notification ''service_process.should_stop'') (trace st)"
    by (simp_all add: count_events_def)
  then show ?thesis
    unfolding e by (simp add: update_ui_fields update_ui_counts)
qed

subsection \<open>Starting and stopping an eye process\<close>

text \<open>
  C6. \<open>start_stop_eye N True\<close> publishes exactly one notification, with subject
  \<open>eye_process.should_start.N\<close> and \<open>eye_id = N\<close> and no other key (no delay);
  \<open>start_stop_eye N False\<close> publishes exactly one, with subject
  \<open>eye_process.should_stop.N\<close>, \<open>eye_id = N\<close> and \<open>delay = 0.2\<close>. The \<open>N\<close> of the
  subject is the decimal numeral of the eye id: read as a decimal numeral it gives the
  eye id back, it is made of digits after an optional minus sign, and it has no leading
  zero. For the two eyes of the plugin the subjects end in \<open>.0\<close> and \<open>.1\<close>. Eye 0
  switched on and then off gives the start notification followed by the stop notification.
\<close>
theorem start_stop_eye_notifications:
  "trace (start_stop_eye eye_id True st) =
     trace st @ [NotifyAll [''subject'' \<mapsto> PStr (''eye_process.should_start.'' @ py_format_int eye_id),
                            ''eye_id'' \<mapsto> PInt eye_id]]
   \<and> dom [''subject'' \<mapsto> PStr (''eye_process.should_start.'' @ py_format_int eye_id),
           ''eye_id'' \<mapsto> (PInt eye_id :: 'c pyval)] = {''subject'', ''eye_id''}
   \<and> trace (start_stop_eye eye_id False st) =
     trace st @ [NotifyAll [''subject'' \<mapsto> PStr (''eye_process.should_stop.'' @ py_format_int eye_id),
                            ''eye_id'' \<mapsto> PInt eye_id, ''delay'' \<mapsto> PFloat (1 / 5)]]
   \<and> int_of_decimal (py_format_int eye_id) = eye_id
   \<and> (if eye_id < 0 then py_format_int eye_id = CHR ''-'' # py_format_int (- eye_id)
       else list_all is_digit (py_format_int eye_id))
   \<and> (hd (py_format_int \<bar>eye_id\<bar>) = CHR ''0'') = (eye_id = 0)
   \<and> trace (start_stop_eye 1 True st) =
     trace st @ [NotifyAll [''subject'' \<mapsto> PStr ''eye_process.should_start.1'',
                            ''eye_id'' \<mapsto> PInt 1]]
   \<and> trace (start_stop_eye 1 False st) =
     trace st @ [NotifyAll [''subject'' \<mapsto> PStr ''eye_process.should_stop.1'',
                            ''eye_id'' \<mapsto> PInt 1, ''delay'' \<mapsto> PFloat (1 / 5)]]
   \<and> trace (start_stop_eye 0 False (start_stop_eye 0 True st)) =
     trace st @ [NotifyAll [''subject'' \<mapsto> PStr ''eye_process.should_start.0'',
                            ''eye_id'' \<mapsto> PInt 0],
                 NotifyAll [''subject'' \<mapsto> PStr ''eye_process.should_stop.0'',
                            ''eye_id'' \<mapsto> PInt 0, ''delay'' \<mapsto> PFloat (1 / 5)]]"
proof -
  have a: "trace (start_stop_eye eye_id True st) =
     trace st @ [NotifyAll [''subject'' \<mapsto> PStr (''eye_process.should_start.'' @ py_format_int eye_id),
                            ''eye_id'' \<mapsto> PInt eye_id]]"
    by (simp add: start_stop_eye_def notify_all_def)
  have b: "dom [''subject'' \<mapsto> PStr (''eye_process.should_start.'' @ py_format_int eye_id),
           ''eye_id'' \<mapsto> (PInt eye_id :: 'c pyval)] = {''subject'', ''eye_id''}"
    by auto
  have c: "trace (start_stop_eye eye_id False st) =
     trace st @ [NotifyAll [''subject'' \<mapsto> PStr (''eye_process.should_stop.'' @ py_format_int eye_id),
                            ''eye_id'' \<mapsto> PInt eye_id, ''delay'' \<mapsto> PFloat (1 / 5)]]"
    by (simp add: start_stop_eye_def notify_all_def)
  have d: "int_of_decimal (py_format_int eye_id) = eye_id"
    by (rule int_of_decimal_format)
  have e: "if eye_id < 0 then py_format_int eye_id = CHR ''-'' # py_format_int (- eye_id)
       else list_all is_digit (py_format_int eye_id)"
    by (simp add: py_format_int_def str_nat_digits)
  have f: "(hd (py_format_int \<bar>eye_id\<bar>) = CHR ''0'') = (eye_id = 0)"
    by (simp add: py_format_int_def str_nat_leading_zero)
  have g: "trace (start_stop_eye 1 True st) =
     trace st @ [NotifyAll [''subject'' \<mapsto> PStr ''eye_process.should_start.1'',
                            ''eye_id'' \<mapsto> PInt 1]]"
    by (simp add: start_stop_eye_def notify_all_def py_format_int_examples)
  have h: "trace (start_stop_eye 1 False st) =
     trace st @ [NotifyAll [''subject'' \<mapsto> PStr ''eye_process.should_stop.1'',
                            ''eye_id'' \<mapsto> PInt 1, ''delay'' \<mapsto> PFloat (1 / 5)]]"
    by (simp add: start_stop_eye_def notify_all_def py_format_int_examples)
  have i: "trace (start_stop_eye 0 False (start_stop_eye 0 True st)) =
     trace st @ [NotifyAll [''subject'' \<mapsto> PStr ''eye_process.should_start.0'',
                            ''eye_id'' \<mapsto> PInt 0],
                 NotifyAll [''subject'' \<mapsto> PStr ''eye_process.should_stop.0'',
                            ''eye_id'' \<mapsto> PInt 0, ''delay'' \<mapsto> PFloat (1 / 5)]]"
    by (simp add: start_stop_eye_def notify_all_def py_format_int_examples)
  from a b c d e f g h i show ?thesis
    by (intro conjI)
qed

subsection \<open>The repaint heartbeat\<close>

text \<open>
  C7. A notification with subject \<open>service_process.ui.should_update\<close> that carries
  \<open>initial_delay = d\<close> is published again with \<open>delay\<close> set to \<open>d\<close>, then \<open>update_ui\<close>
  runs once (one buffer swap when the window is running). A notification with any other
  subject leaves the state as it was.
\<close>
theorem on_notify_heartbeat:
  "(notification ''subject'' = Some (PStr ''service_process.ui.should_update'')
      \<and> notification ''initial_delay'' = Some d
    \<longrightarrow> on_notify notification st =
          Inr (update_ui (st\<lparr>trace := trace st @ [NotifyAll (notification(''delay'' \<mapsto> d))]\<rparr>))
      \<and> (\<exists>st'. on_notify notification st = Inr st'
            \<and> count_events is_swap (trace st')
                = count_events is_swap (trace st) + (if should_close st then 0 else 1)))
   \<and> (notification ''subject'' = Some subj
      \<and> subj \<noteq> PStr ''service_process.ui.should_update''
    \<longrightarrow> on_notify notification st = Inr st)"
proof -
  have "count_events is_swap (trace st @ [NotifyAll n]) = count_events is_swap (trace st)"
    for n :: "'a pydict"
    by (simp add: count_events_def)
  then show ?thesis
    by (simp add: on_notify_def notify_all_def emit_def update_ui_counts Let_def)
qed

text \<open>A heartbeat with initial delay 1/30, and a notification with another subject.\<close>
theorem on_notify_heartbeat_witness:
  "on_notify [''subject'' \<mapsto> PStr ''service_process.ui.should_update'',
              ''initial_delay'' \<mapsto> PFloat (1 / 30), ''delay'' \<mapsto> PFloat 0] example_state
     = Inr (update_ui (example_state\<lparr>trace :=
              [NotifyAll [''subject'' \<mapsto> PStr ''service_process.ui.should_update'',
                          ''initial_delay'' \<mapsto> PFloat (1 / 30),
                          ''delay'' \<mapsto> PFloat (1 / 30)]]\<rparr>))
   \<and> on_notify [''subject'' \<mapsto> PStr ''service_process.should_stop''] example_state
     = Inr example_state"
proof -
  let ?n = "[''subject'' \<mapsto> PStr ''service_process.ui.should_update'',
             ''initial_delay'' \<mapsto> PFloat (1 / 30), ''delay'' \<mapsto> PFloat 0] :: unit pydict"
  let ?m = "[''subject'' \<mapsto> PStr ''service_process.should_stop''] :: unit pydict"
  have t: "trace example_state = []"
    by (simp add: example_state_def)
  have u: "?n(''delay'' \<mapsto> PFloat (1 / 30))
     = [''subject'' \<mapsto> PStr ''service_process.ui.should_update'',
        ''initial_delay'' \<mapsto> PFloat (1 / 30), ''delay'' \<mapsto> PFloat (1 / 30)]"
    by simp
  from on_notify_heartbeat [of ?n "PFloat (1 / 30)" example_state]
  have a: "on_notify ?n example_state
     = Inr (update_ui (example_state\<lparr>trace := trace example_state
              @ [NotifyAll (?n(''delay'' \<mapsto> PFloat (1 / 30)))]\<rparr>))"
    by simp
  from on_notify_heartbeat [of ?m _ example_state "PStr ''service_process.should_stop''"]
  have b: "on_notify ?m example_state = Inr example_state"
    by simp
  show ?thesis using a b unfolding t u by simp
qed

subsection \<open>The clipboard\<close>

text \<open>
  C8. A clipboard read that returns None raises inside \<open>update_ui\<close> and is recovered
  there: the render pass emits what it emits for an empty clipboard string, it hands the
  empty string to the widget system, and \<open>update_ui\<close> returns a state, never an error.
  The other failures of the model are not recovered: a missing key in \<open>on_notify\<close> and
  a zero framebuffer scale in \<open>set_window_size\<close> are returned to the caller.
\<close>
theorem clipboard_absent_is_empty_string:
  "clipboard_decode None = Inl AttributeError
   \<and> trace (update_ui (st\<lparr>clipboard := None\<rparr>)) = trace (update_ui (st\<lparr>clipboard := Some []\<rparr>))
   \<and> (\<not> should_close st \<longrightarrow>
        trace (update_ui (st\<lparr>clipboard := None\<rparr>)) =
          trace st
          @ [GlViewport 0 0 (fst (window_size st)) (snd (window_size st)), GlfwPollEvents,
             MakeCoordSystemNormBased, DrawGlTexture,
             MakeCoordSystemPixelBased (snd (window_size st)) (fst (window_size st)) 3,
             GuiUpdateClipboard [], GuiUpdate]
          @ (case gui_input_clipboard st of
               None \<Rightarrow> []
             | Some u \<Rightarrow> if u \<noteq> [] then [GlfwSetClipboardString u] else [])
          @ [GlfwSwapBuffers])
   \<and> on_notify Map.empty st = Inl (KeyError ''subject'')
   \<and> set_window_size (st\<lparr>win_framebuffer_scale := 0\<rparr>) = Inl ZeroDivisionError"
proof -
  have a: "clipboard_decode None = Inl AttributeError"
    by (simp add: clipboard_decode_def)
  have d: "on_notify Map.empty st = Inl (KeyError ''subject'')"
    by (simp add: on_notify_def)
  have e: "set_window_size (st\<lparr>win_framebuffer_scale := 0\<rparr>) = Inl ZeroDivisionError"
    by (simp add: set_window_size_def py_truediv_def window_size_default_def)
  have b: "trace (update_ui (st\<lparr>clipboard := None\<rparr>))
         = trace (update_ui (st\<lparr>clipboard := Some []\<rparr>))"
  proof (cases "should_close st")
    case True
    then show ?thesis by (simp add: update_ui_closing)
  next
    case False
    then show ?thesis by (simp add: update_ui_running_trace split: option.splits)
  qed
  have c: "\<not> should_close st \<longrightarrow>
        trace (update_ui (st\<lparr>clipboard := None\<rparr>)) =
          trace st
          @ [GlViewport 0 0 (fst (window_size st)) (snd (window_size st)), GlfwPollEvents,
             MakeCoordSystemNormBased, DrawGlTexture,
             MakeCoordSystemPixelBased (snd (window_size st)) (fst (window_size st)) 3,
             GuiUpdateClipboard [], GuiUpdate]
          @ (case gui_input_clipboard st of
               None \<Rightarrow> []
             | Some u \<Rightarrow> if u \<noteq> [] then [GlfwSetClipboardString u] else [])
          @ [GlfwSwapBuffers]"
    by (simp add: update_ui_running_trace split: option.splits)
  from a b c d e show ?thesis by blast
qed

text \<open>The render pass of the example window with no clipboard content.\<close>
theorem clipboard_absent_is_empty_string_witness:
  "\<not> should_close example_state
   \<and> trace (update_ui (example_state\<lparr>clipboard := None\<rparr>)) =
       [GlViewport 0 0 400 400, GlfwPollEvents, MakeCoordSystemNormBased, DrawGlTexture,
        MakeCoordSystemPixelBased 400 400 3, GuiUpdateClipboard [], GuiUpdate, GlfwSwapBuffers]"
proof -
  have h: "\<not> should_close example_state"
    by (simp add: example_state_def)
  from clipboard_absent_is_empty_string [of example_state] h
  have "trace (update_ui (example_state\<lparr>clipboard := None\<rparr>)) =
          trace example_state
          @ [GlViewport 0 0 (fst (window_size example_state)) (snd (window_size example_state)),
             GlfwPollEvents, MakeCoordSystemNormBased, DrawGlTexture,
             MakeCoordSystemPixelBased (snd (window_size example_state))
               (fst (window_size example_state)) 3,
             GuiUpdateClipboard [], GuiUpdate]
          @ (case gui_input_clipboard example_state of
               None \<Rightarrow> []
             | Some u \<Rightarrow> if u \<noteq> [] then [GlfwSetClipboardString u] else [])
          @ [GlfwSwapBuffers]"
    by blast
  then show ?thesis using h by (simp add: example_state_def)
qed

subsection \<open>The configuration snapshot\<close>

text \<open>The ways \<open>get_init_dict\<close> returns.\<close>

lemma get_init_dict_zero_size:
  "fst (win_size st) = 0 \<or> snd (win_size st) = 0 \<Longrightarrow>
   get_init_dict st =
     Inr [''window_position'' \<mapsto> PPair (fst (win_pos st)) (snd (win_pos st)),
          ''gui_scale'' \<mapsto> PFloat (gui_user_scale st),
          ''ui_config'' \<mapsto> POpaque (gui_configuration st)]"
  by (auto simp add: get_init_dict_def Let_def)

lemma get_init_dict_unscaled:
  "fst (win_size st) \<noteq> 0 \<Longrightarrow> snd (win_size st) \<noteq> 0 \<Longrightarrow>
   platform_system st \<noteq> ''Windows'' \<Longrightarrow> platform_system st \<noteq> ''Linux'' \<Longrightarrow>
   get_init_dict st =
     Inr [''window_position'' \<mapsto> PPair (fst (win_pos st)) (snd (win_pos st)),
          ''gui_scale'' \<mapsto> PFloat (gui_user_scale st),
          ''ui_config'' \<mapsto> POpaque (gui_configuration st),
          ''window_size'' \<mapsto> PPair (fst (win_size st)) (snd (win_size st))]"
  by (simp add: get_init_dict_def Let_def split: prod.splits)

lemma get_init_dict_scaled:
  assumes "fst (win_size st) \<noteq> 0" and "snd (win_size st) \<noteq> 0"
    and "platform_system st = ''Windows'' \<or> platform_system st = ''Linux''"
    and "win_content_scale st \<noteq> 0"
    and "\<bar>fst (win_size st)\<bar> < 2 ^ 53" and "\<bar>snd (win_size st)\<bar> < 2 ^ 53"
    and "\<bar>of_int (fst (win_size st)) / win_content_scale st\<bar> < double_overflow"
    and "\<bar>of_int (snd (win_size st)) / win_content_scale st\<bar> < double_overflow"
  shows "get_init_dict st =
     Inr [''window_position'' \<mapsto> PPair (fst (win_pos st)) (snd (win_pos st)),
          ''gui_scale'' \<mapsto> PFloat (gui_user_scale st),
          ''ui_config'' \<mapsto> POpaque (gui_configuration st),
          ''window_size'' \<mapsto>
             PPair (py_int (round_to_double (of_int (fst (win_size st)) / win_content_scale st)))
                   (py_int (round_to_double (of_int (snd (win_size st)) / win_content_scale st)))]"
proof -
  obtain w h where wh: "win_size st = (w, h)"
    by (cases "win_size st")
  from assms(5,7) assms(4) have a: "py_int_truediv w (win_content_scale st)
      = Inr (Finite (round_to_double (of_int w / win_content_scale st)))"
    unfolding wh by (simp add: py_int_truediv_finite)
  from assms(6,8) assms(4) have b: "py_int_truediv h (win_content_scale st)
      = Inr (Finite (round_to_double (of_int h / win_content_scale st)))"
    unfolding wh by (simp add: py_int_truediv_finite)
  from assms(1,2,3) show ?thesis
    unfolding wh by (simp add: get_init_dict_def Let_def wh a b py_int_of_float_def)
qed

text \<open>
  What holds of every snapshot that is returned: the three keys are there, with the
  window position, the user scale and the widget configuration as stored;
  \<open>window_size\<close> is there exactly when neither dimension of the window's size is zero;
  and there is no other key.
\<close>

lemma init_dict_keys:
  assumes "get_init_dict st = Inr sess"
  shows "sess ''window_position'' = Some (PPair (fst (win_pos st)) (snd (win_pos st)))"
    and "sess ''gui_scale'' = Some (PFloat (gui_user_scale st))"
    and "sess ''ui_config'' = Some (POpaque (gui_configuration st))"
    and "(''window_size'' \<in> dom sess) = (fst (win_size st) \<noteq> 0 \<and> snd (win_size st) \<noteq> 0)"
    and "dom sess \<subseteq> {''window_position'', ''gui_scale'', ''ui_config'', ''window_size''}"
  using assms
  by (auto simp add: get_init_dict_def Let_def split: if_splits prod.splits sum.splits)

text \<open>
  C9, the failing input. On Linux a window of one pixel by one pixel at content scale 2
  passes the guard on the window's size, each dimension becomes 0.5 and truncates to 0,
  and the snapshot holds the window size (0, 0): a zero size is persisted. The guard
  precedes the division by the content scale, so it does not see the size it protects.
\<close>
theorem init_dict_small_window:
  "get_init_dict (example_state\<lparr>win_size := (1, 1), win_content_scale := 2\<rparr>) =
     Inr [''window_position'' \<mapsto> PPair 30 30, ''gui_scale'' \<mapsto> PFloat 1,
          ''ui_config'' \<mapsto> POpaque (), ''window_size'' \<mapsto> PPair 0 0]"
proof -
  let ?st = "example_state\<lparr>win_size := (1, 1), win_content_scale := 2\<rparr>"
  have "\<bar>1 / 2 :: rat\<bar> < 2 ^ 1023"
    by simp
  then have o: "\<bar>1 / 2 :: rat\<bar> < double_overflow"
    by (rule below_overflow)
  have "round_to_double (1 / 2) = of_int 4503599627370496 * 2 powi (- 53)"
    by (rule round_to_double_eval [where e = "- 1"]) simp_all
  then have d: "round_to_double (1 / 2) = 1 / 2"
    by (simp add: power_int_minus)
  have t: "py_int (1 / 2) = 0"
    by (simp add: py_int_def floor_eq_iff)
  have "get_init_dict ?st =
     Inr [''window_position'' \<mapsto> PPair (fst (win_pos ?st)) (snd (win_pos ?st)),
          ''gui_scale'' \<mapsto> PFloat (gui_user_scale ?st),
          ''ui_config'' \<mapsto> POpaque (gui_configuration ?st),
          ''window_size'' \<mapsto>
             PPair (py_int (round_to_double (of_int (fst (win_size ?st)) / win_content_scale ?st)))
                   (py_int (round_to_double (of_int (snd (win_size ?st)) / win_content_scale ?st)))]"
  proof (rule get_init_dict_scaled)
    have q: "of_int (fst (win_size ?st)) / win_content_scale ?st = (1 / 2 :: rat)"
      "of_int (snd (win_size ?st)) / win_content_scale ?st = (1 / 2 :: rat)"
      by simp_all
    show "\<bar>of_int (fst (win_size ?st)) / win_content_scale ?st\<bar> < double_overflow"
      using o by (simp only: q)
    show "\<bar>of_int (snd (win_size ?st)) / win_content_scale ?st\<bar> < double_overflow"
      using o by (simp only: q)
  qed (simp_all add: example_state_def)
  then show ?thesis
    by (simp add: example_state_def d t)
qed

text \<open>The double nearest to 1.1, and the quotients of 440 and 330 by it.\<close>

lemma double_440: "round_to_double (440 / (2476979795053773 / 2 ^ 51)) = 7036874417766399 / 2 ^ 44"
proof -
  have "round_to_double (440 / (2476979795053773 / 2 ^ 51))
      = of_int 7036874417766399 * 2 powi (- 44)"
    by (rule round_to_double_eval [where e = 8]) simp_all
  then show ?thesis by (simp add: power_int_minus)
qed

lemma double_330: "round_to_double (330 / (2476979795053773 / 2 ^ 51)) = 300"
proof -
  have "round_to_double (330 / (2476979795053773 / 2 ^ 51))
      = of_int 5277655813324800 * 2 powi (- 44)"
    by (rule round_to_double_eval [where e = 8]) simp_all
  then show ?thesis by (simp add: power_int_minus)
qed

text \<open>
  C10. For a window with no zero dimension, the stored \<open>window_size\<close> is, on Windows and
  Linux, each dimension divided by the content scale, the quotient a double, and
  truncated toward zero (for a content scale that is not zero, dimensions that convert
  exactly and quotients in the range of a double); on any other platform it is the
  window's size as glfw reports it.
\<close>
theorem init_dict_window_size_by_platform:
  assumes "fst (win_size st) \<noteq> 0" and "snd (win_size st) \<noteq> 0"
  shows "((platform_system st = ''Windows'' \<or> platform_system st = ''Linux'')
            \<and> win_content_scale st \<noteq> 0
            \<and> \<bar>fst (win_size st)\<bar> < 2 ^ 53 \<and> \<bar>snd (win_size st)\<bar> < 2 ^ 53
            \<and> \<bar>of_int (fst (win_size st)) / win_content_scale st\<bar> < double_overflow
            \<and> \<bar>of_int (snd (win_size st)) / win_content_scale st\<bar> < double_overflow \<longrightarrow>
          (\<exists>sess. get_init_dict st = Inr sess
             \<and> sess ''window_size'' =
                 Some (PPair
                   (py_int (round_to_double (of_int (fst (win_size st)) / win_content_scale st)))
                   (py_int (round_to_double (of_int (snd (win_size st)) / win_content_scale st))))))
       \<and> (platform_system st \<noteq> ''Windows'' \<and> platform_system st \<noteq> ''Linux'' \<longrightarrow>
          (\<exists>sess. get_init_dict st = Inr sess
             \<and> sess ''window_size'' = Some (PPair (fst (win_size st)) (snd (win_size st)))))"
  using assms by (simp add: get_init_dict_scaled get_init_dict_unscaled)

text \<open>
  A 440 by 330 window at content scale 1.1: on Linux the quotient of 440 by the double
  1.1 is the double next below 400 and 399 by 300 is stored; on Darwin 440 by 330 is.
\<close>
theorem init_dict_window_size_by_platform_witness:
  "map_sum id (\<lambda>sess. sess ''window_size'')
      (get_init_dict (example_state\<lparr>win_size := (440, 330),
                                    win_content_scale := 2476979795053773 / 2 ^ 51\<rparr>))
     = Inr (Some (PPair 399 300))
   \<and> map_sum id (\<lambda>sess. sess ''window_size'')
      (get_init_dict (example_state\<lparr>win_size := (440, 330),
                                    win_content_scale := 2476979795053773 / 2 ^ 51,
                                    platform_system := ''Darwin''\<rparr>))
     = Inr (Some (PPair 440 330))"
proof -
  let ?l = "example_state\<lparr>win_size := (440, 330),
                          win_content_scale := 2476979795053773 / 2 ^ 51\<rparr>"
  let ?d = "example_state\<lparr>win_size := (440, 330),
                          win_content_scale := 2476979795053773 / 2 ^ 51,
                          platform_system := ''Darwin''\<rparr>"
  have "\<bar>440 / (2476979795053773 / 2 ^ 51) :: rat\<bar> < 2 ^ 1023"
    by simp
  then have o1: "\<bar>440 / (2476979795053773 / 2 ^ 51) :: rat\<bar> < double_overflow"
    by (rule below_overflow)
  have "\<bar>330 / (2476979795053773 / 2 ^ 51) :: rat\<bar> < 2 ^ 1023"
    by simp
  then have o2: "\<bar>330 / (2476979795053773 / 2 ^ 51) :: rat\<bar> < double_overflow"
    by (rule below_overflow)
  have q: "of_int (fst (win_size ?l)) / win_content_scale ?l
             = (440 / (2476979795053773 / 2 ^ 51) :: rat)"
    "of_int (snd (win_size ?l)) / win_content_scale ?l
             = (330 / (2476979795053773 / 2 ^ 51) :: rat)"
    by simp_all
  have t: "py_int (7036874417766399 / 2 ^ 44) = 399" "py_int 300 = 300"
    by (simp_all add: py_int_def floor_eq_iff)
  have l: "fst (win_size ?l) \<noteq> 0" "snd (win_size ?l) \<noteq> 0"
    by simp_all
  have lh: "(platform_system ?l = ''Windows'' \<or> platform_system ?l = ''Linux'')
      \<and> win_content_scale ?l \<noteq> 0
      \<and> \<bar>fst (win_size ?l)\<bar> < 2 ^ 53 \<and> \<bar>snd (win_size ?l)\<bar> < 2 ^ 53
      \<and> \<bar>of_int (fst (win_size ?l)) / win_content_scale ?l\<bar> < double_overflow
      \<and> \<bar>of_int (snd (win_size ?l)) / win_content_scale ?l\<bar> < double_overflow"
  proof (intro conjI)
    show "\<bar>of_int (fst (win_size ?l)) / win_content_scale ?l\<bar> < double_overflow"
      using o1 by (simp only: q)
    show "\<bar>of_int (snd (win_size ?l)) / win_content_scale ?l\<bar> < double_overflow"
      using o2 by (simp only: q)
  qed (simp_all add: example_state_def)
  have d: "fst (win_size ?d) \<noteq> 0" "snd (win_size ?d) \<noteq> 0"
    by simp_all
  have dh: "platform_system ?d \<noteq> ''Windows'' \<and> platform_system ?d \<noteq> ''Linux''"
    by simp
  from init_dict_window_size_by_platform [OF l] lh
  obtain s1 where s1: "get_init_dict ?l = Inr s1"
    "s1 ''window_size'' =
       Some (PPair (py_int (round_to_double (of_int (fst (win_size ?l)) / win_content_scale ?l)))
                   (py_int (round_to_double (of_int (snd (win_size ?l)) / win_content_scale ?l))))"
    by blast
  from init_dict_window_size_by_platform [OF d] dh
  obtain s2 where s2: "get_init_dict ?d = Inr s2"
    "s2 ''window_size'' = Some (PPair (fst (win_size ?d)) (snd (win_size ?d)))"
    by blast
  from s1(2) have "s1 ''window_size'' = Some (PPair 399 300)"
    by (simp only: q double_440 double_330 t)
  with s1(1) have a: "map_sum id (\<lambda>sess. sess ''window_size'') (get_init_dict ?l)
     = Inr (Some (PPair 399 300))"
    by simp
  from s2 have b: "map_sum id (\<lambda>sess. sess ''window_size'') (get_init_dict ?d)
     = Inr (Some (PPair 440 330))"
    by simp
  from a b show ?thesis by blast
qed

end
